theory Spec2Isabelle
  imports Main
begin

section \<open>Data model\<close>

text \<open>
  A file record of the in-memory store: \<open>contents = None\<close> is the JavaScript \<open>null\<close>
  (no contents), \<open>state = None\<close> is an absent state (an unmodified record), \<open>stat\<close> keeps
  the permission mode when the record carries one.
\<close>

datatype file_state = Modified | Deleted

record file_record =
  path :: string
  contents :: "string option"
  state :: "file_state option"
  stat :: "nat option"
  history :: "string list"

text \<open>
  The store is the external mem-fs collaborator, modelled at its interface: the records in
  insertion order, keyed by \<open>path\<close> (the store's canonical key), and a flag telling whether
  the store object offers \<open>existsInMemory\<close> (a legacy store does not).
\<close>

record store =
  files :: "file_record list"
  hasExistsInMemory :: bool

text \<open>What is on disk at a path: a file with its bytes and mode, or a directory with its mode.\<close>

datatype disk_node = DiskFile string nat | DiskDir nat

datatype paths_arg = One string | Many "string list"

type_synonym glob_options = "string list"

type_synonym data = "(string \<times> string) list"

type_synonym tpl_options = "(string \<times> string) list"

text \<open>An entry of \<open>resolveFromPaths\<close>: the source as given (\<open>from\<close>) and resolved.\<close>

record resolved_from =
  from_path :: string
  resolvedFrom :: string

datatype error =
    NoSourceMatched
  | DestinationNotDirectory
  | IncompatibleStore
  | ENOENT
  | ENOTDIR
  | EISDIR
  | SourceMissing
  | TypeError

text \<open>
  Everything the actions import from other packages, or from \<open>util\<close>, whose source is
  not at hand, is a field of the environment: \<open>path.resolve\<close>, \<open>path.relative\<close>,
  \<open>path.join\<close>, \<open>normalize-path\<close>, the glob libraries (\<open>globSync\<close> and \<open>globby\<close>, called
  with \<open>absolute\<close> and \<open>onlyFiles\<close> set, \<open>isDynamicPattern\<close>, \<open>multimatch\<close>), the helpers
  \<open>globify\<close> (its result flattened to a list), \<open>getCommonPath\<close>, \<open>resolveFromPaths\<close>,
  \<open>resolveGlobOptions\<close> (arguments \<open>noGlob\<close>, \<open>hasDynamicPattern\<close>, \<open>hasGlobOptions\<close>; the
  result is \<open>preferFiles\<close>) and \<open>render\<close>, and the disk as \<open>stat\<close> and a read see it.
\<close>

record env =
  resolve :: "string \<Rightarrow> string"
  relative :: "string \<Rightarrow> string \<Rightarrow> string"
  join :: "string \<Rightarrow> string \<Rightarrow> string"
  normalize :: "string \<Rightarrow> string"
  isDynamicPattern :: "string \<Rightarrow> bool"
  globify :: "paths_arg \<Rightarrow> string list"
  globSync :: "string list \<Rightarrow> glob_options option \<Rightarrow> string list"
  globby :: "string list \<Rightarrow> glob_options option \<Rightarrow> string list"
  multimatch :: "string list \<Rightarrow> string list \<Rightarrow> string list"
  getCommonPath :: "paths_arg \<Rightarrow> string"
  resolveFromPaths :: "paths_arg \<Rightarrow> string \<Rightarrow> resolved_from list"
  resolveGlobOptions :: "bool \<Rightarrow> bool \<Rightarrow> bool \<Rightarrow> bool"
  render :: "string \<Rightarrow> data \<Rightarrow> tpl_options option \<Rightarrow> string"
  disk :: "string \<Rightarrow> disk_node option"

section \<open>The store interface\<close>

definition lookup :: "store \<Rightarrow> string \<Rightarrow> file_record option" where
  "lookup st p = find (\<lambda>f. path f = p) (files st)"

definition existsInMemory :: "store \<Rightarrow> string \<Rightarrow> bool" where
  "existsInMemory st p = (lookup st p \<noteq> None)"

definition loadFile :: "env \<Rightarrow> string \<Rightarrow> file_record" where
  "loadFile env p =
     (case disk env p of
        Some (DiskFile c m) \<Rightarrow>
          \<lparr>path = p, contents = Some c, state = None, stat = Some m, history = [p]\<rparr>
      | _ \<Rightarrow> \<lparr>path = p, contents = None, state = None, stat = None, history = [p]\<rparr>)"

text \<open>\<open>store.get\<close>: the record held in memory, else the file as loaded from disk.\<close>

definition get :: "env \<Rightarrow> store \<Rightarrow> string \<Rightarrow> file_record" where
  "get env st p = (case lookup st p of Some f \<Rightarrow> f | None \<Rightarrow> loadFile env p)"

fun add_file :: "file_record \<Rightarrow> file_record list \<Rightarrow> file_record list" where
  "add_file f [] = [f]"
| "add_file f (g # gs) = (if path g = path f then f # gs else g # add_file f gs)"

text \<open>\<open>store.add\<close>: a record replaces the one under the same path, in place.\<close>

definition add :: "file_record \<Rightarrow> store \<Rightarrow> store" where
  "add f st = st\<lparr>files := add_file f (files st)\<rparr>"

section \<open>File states\<close>

text \<open>
  Modelled from the spec: \<open>setDeletedFileState\<close> and \<open>isFileStateDeleted\<close> of
  \<open>src/state.ts\<close>, which is not among the sources. The spec's data model has
  \<open>state\<close> one of unmodified, modified, deleted, and a tombstone is \<open>state = deleted\<close>.
\<close>

definition setDeletedFileState :: "file_record \<Rightarrow> file_record" where
  "setDeletedFileState f = f\<lparr>state := Some Deleted\<rparr>"

definition isFileStateDeleted :: "file_record \<Rightarrow> bool" where
  "isFileStateDeleted f = (state f = Some Deleted)"

section \<open>delete\<close>

record delete_options =
  globOptions :: "glob_options option"

definition deleteFile :: "env \<Rightarrow> string \<Rightarrow> store \<Rightarrow> store" where
  "deleteFile env p st =
     (let f = get env st p
      in add ((setDeletedFileState f)\<lparr>contents := None\<rparr>) st)"

text \<open>\<open>if (!Array.isArray(paths)) paths = [paths]\<close>\<close>

definition toArray :: "paths_arg \<Rightarrow> string list" where
  "toArray paths = (case paths of One p \<Rightarrow> [p] | Many l \<Rightarrow> l)"

text \<open>A JavaScript \<open>Set\<close> keeps insertion order and ignores a value it already holds.\<close>

definition set_add :: "string \<Rightarrow> string list \<Rightarrow> string list" where
  "set_add x xs = (if x \<in> set xs then xs else xs @ [x])"

text \<open>The first loop of \<open>deleteAction\<close>: the pair is (\<open>onStoreFiles\<close>, \<open>notFound\<close>).\<close>

fun classifyPaths ::
  "env \<Rightarrow> store \<Rightarrow> string list \<Rightarrow> string list \<times> string list \<Rightarrow> string list \<times> string list"
where
  "classifyPaths env st [] acc = acc"
| "classifyPaths env st (filePath # rest) (onStoreFiles, notFound) =
     classifyPaths env st rest
       (if \<not> existsInMemory st filePath then (onStoreFiles, set_add filePath notFound)
        else if contents (get env st filePath) \<noteq> None
          then (set_add filePath onStoreFiles, notFound)
        else if \<not> isFileStateDeleted (get env st filePath)
          then (onStoreFiles, set_add filePath notFound)
        else (onStoreFiles, notFound))"

text \<open>
  \<open>store.each\<close> with the callback of \<open>deleteAction\<close>. The callback only rewrites the
  record it visits, so visiting the records the store holds when the scan starts is the
  live iteration of the source.
\<close>

definition deleteMatching :: "env \<Rightarrow> string list \<Rightarrow> store \<Rightarrow> store" where
  "deleteMatching env patterns st =
     fold (\<lambda>f s. if multimatch env [normalize env (path f)] patterns \<noteq> []
                  then deleteFile env (path f) s else s)
          (files st) st"

definition deleteAction ::
  "env \<Rightarrow> store \<Rightarrow> paths_arg \<Rightarrow> delete_options \<Rightarrow> error + store"
where
  "deleteAction env st paths options =
     (let ps = toArray paths
      in if ps \<noteq> [] \<and> \<not> hasExistsInMemory st then Inl TypeError
         else
           let (onStoreFiles, notFound) = classifyPaths env st ps ([], []);
               patterns = globify env (Many notFound);
               found = map (resolve env) (globSync env patterns (globOptions options));
               st1 = fold (deleteFile env) found st;
               st2 = deleteMatching env patterns st1;
               st3 = fold (deleteFile env) onStoreFiles st2
           in Inr st3)"

section \<open>copyAsync\<close>

record copy_options = delete_options +
  processFile :: "(string \<Rightarrow> string) option"
  append :: bool
  processDestinationPath :: "(string \<Rightarrow> string) option"
  ignoreNoMatch :: bool

text \<open>
  Modelled from the spec: the editor's \<open>exists\<close> (\<open>src/actions/exists.ts\<close> is not among
  the sources). A record with null contents is a tombstone or a file that is not there, so
  a path exists when the record the store gives for it has contents.
\<close>

definition exists_file :: "env \<Rightarrow> store \<Rightarrow> string \<Rightarrow> bool" where
  "exists_file env st p = (contents (get env st p) \<noteq> None)"

text \<open>\<open>this.store.existsInMemory?.(p)\<close>: undefined, hence falsy, on a legacy store.\<close>

definition existsInMemoryOpt :: "store \<Rightarrow> string \<Rightarrow> bool" where
  "existsInMemoryOpt st p = (hasExistsInMemory st \<and> existsInMemory st p)"

definition renderFilepath ::
  "env \<Rightarrow> string \<Rightarrow> data option \<Rightarrow> tpl_options option \<Rightarrow> string"
where
  "renderFilepath env filepath context tplSettings =
     (case context of None \<Rightarrow> filepath | Some c \<Rightarrow> render env filepath c tplSettings)"

definition getOneFile :: "env \<Rightarrow> string \<Rightarrow> string option" where
  "getOneFile env filepath =
     (let resolved = resolve env filepath
      in case disk env resolved of Some (DiskFile c m) \<Rightarrow> Some resolved | _ \<Rightarrow> None)"

text \<open>
  The single copies \<open>copyAsync\<close> starts, in the order of its \<open>Promise.all\<close>: source and
  destination of a \<open>_copySingle\<close> or \<open>_copySingleAsync\<close> call.
\<close>

datatype copy_op = CopySingle string string | CopySingleAsync string string

text \<open>The shortcut for a string \<open>from\<close> that is an existing file; \<open>to\<close> is already resolved.\<close>

definition fastPath ::
  "env \<Rightarrow> store \<Rightarrow> paths_arg \<Rightarrow> string \<Rightarrow> data option \<Rightarrow> tpl_options option
     \<Rightarrow> copy_op list option"
where
  "fastPath env st src to context tplSettings =
     (case src of
        Many l \<Rightarrow> None
      | One f \<Rightarrow>
          if existsInMemoryOpt st f \<and> exists_file env st f
          then Some [CopySingle f (renderFilepath env to context tplSettings)]
          else (case getOneFile env f of
                  None \<Rightarrow> None
                | Some oneFile \<Rightarrow>
                    if oneFile \<noteq> []
                    then Some [CopySingleAsync oneFile (renderFilepath env to context tplSettings)]
                    else None))"

definition sources :: "env \<Rightarrow> paths_arg \<Rightarrow> resolved_from list" where
  "sources env src = resolveFromPaths env src (getCommonPath env src)"

definition hasDynamicPattern :: "env \<Rightarrow> resolved_from list \<Rightarrow> bool" where
  "hasDynamicPattern env rs =
     list_ex (\<lambda>f. isDynamicPattern env (normalize env (from_path f))) rs"

text \<open>The loop over \<open>resolvedFromPaths\<close>: the pair is (\<open>storeFiles\<close>, \<open>globResolved\<close>).\<close>

definition splitSources :: "store \<Rightarrow> resolved_from list \<Rightarrow> string list \<times> resolved_from list" where
  "splitSources st rs =
     (map resolvedFrom (filter (\<lambda>r. existsInMemoryOpt st (resolvedFrom r)) rs),
      filter (\<lambda>r. \<not> existsInMemoryOpt st (resolvedFrom r)) rs)"

definition copyPatterns :: "env \<Rightarrow> resolved_from list \<Rightarrow> string list" where
  "copyPatterns env globResolved = concat (map (\<lambda>r. globify env (One (from_path r))) globResolved)"

text \<open>The test of the \<open>store.each\<close> callback on one record.\<close>

definition virtualMatch :: "env \<Rightarrow> string list \<Rightarrow> string list \<Rightarrow> file_record \<Rightarrow> bool" where
  "virtualMatch env diskFiles patterns f =
     (let normalizedFilepath = normalize env (path f)
      in normalizedFilepath \<notin> set diskFiles
         \<and> \<not> isDynamicPattern env normalizedFilepath
         \<and> multimatch env [normalizedFilepath] patterns \<noteq> [])"

definition scanStore :: "env \<Rightarrow> store \<Rightarrow> string list \<Rightarrow> string list \<Rightarrow> string list" where
  "scanStore env st diskFiles patterns =
     map path (filter (virtualMatch env diskFiles patterns) (files st))"

text \<open>The pair (\<open>diskFiles\<close>, \<open>storeFiles\<close>) as it stands before the sanity check.\<close>

definition resolveFiles ::
  "env \<Rightarrow> store \<Rightarrow> glob_options option \<Rightarrow> resolved_from list \<Rightarrow> string list \<times> string list"
where
  "resolveFiles env st gopts rs =
     (let (storeFiles, globResolved) = splitSources st rs
      in if globResolved \<noteq> []
         then let patterns = copyPatterns env globResolved;
                  diskFiles = globby env patterns gopts
              in (diskFiles, storeFiles @ scanStore env st diskFiles patterns)
         else ([], storeFiles))"

definition isArray :: "paths_arg \<Rightarrow> bool" where
  "isArray src = (case src of One p \<Rightarrow> False | Many l \<Rightarrow> True)"

definition treatToAsDir :: "env \<Rightarrow> store \<Rightarrow> paths_arg \<Rightarrow> glob_options option \<Rightarrow> bool" where
  "treatToAsDir env st src gopts =
     (let rs = sources env src;
          preferFiles = resolveGlobOptions env False (hasDynamicPattern env rs) (gopts \<noteq> None)
      in isArray src \<or> \<not> preferFiles \<or> snd (splitSources st rs) \<noteq> [])"

text \<open>
  The assertion on the destination: \<open>statSync\<close> throws when nothing is on disk at \<open>to\<close>.
\<close>

definition checkDestination :: "env \<Rightarrow> store \<Rightarrow> string \<Rightarrow> error option" where
  "checkDestination env st to =
     (if \<not> exists_file env st to then None
      else case disk env to of
             None \<Rightarrow> Some ENOENT
           | Some (DiskDir m) \<Rightarrow> None
           | Some (DiskFile c m) \<Rightarrow> Some DestinationNotDirectory)"

definition generateDestination ::
  "env \<Rightarrow> bool \<Rightarrow> string \<Rightarrow> string \<Rightarrow> copy_options \<Rightarrow> string \<Rightarrow> string"
where
  "generateDestination env asDir fromBasePath to options filepath =
     (if asDir
      then (case processDestinationPath options of None \<Rightarrow> (\<lambda>p. p) | Some g \<Rightarrow> g)
             (join env to (relative env fromBasePath filepath))
      else to)"

text \<open>
  \<open>copyAsync\<close> up to the single copies it starts: the result is the error it throws or
  the list of those copies. The record that \<open>this.exists(to)\<close> may load into the store is
  not read again before the copies start, so the store is not threaded through.
\<close>

definition copyAsync ::
  "env \<Rightarrow> store \<Rightarrow> paths_arg \<Rightarrow> string \<Rightarrow> copy_options \<Rightarrow> data option \<Rightarrow> tpl_options option
     \<Rightarrow> error + copy_op list"
where
  "copyAsync env st src to0 options context tplSettings =
     (let to = resolve env to0
      in case fastPath env st src to context tplSettings of
           Some ops \<Rightarrow> Inr ops
         | None \<Rightarrow>
             let fromBasePath = getCommonPath env src;
                 (diskFiles, storeFiles) = resolveFiles env st (globOptions options) (sources env src)
             in if \<not> (ignoreNoMatch options \<or> diskFiles \<noteq> [] \<or> storeFiles \<noteq> [])
                then Inl NoSourceMatched
                else
                  let asDir = treatToAsDir env st src (globOptions options);
                      dest = (\<lambda>filepath. renderFilepath env
                                (generateDestination env asDir fromBasePath to options filepath)
                                context tplSettings)
                  in (case (if asDir then checkDestination env st to else None) of
                        Some e \<Rightarrow> Inl e
                      | None \<Rightarrow>
                          Inr (map (\<lambda>f. CopySingleAsync f (dest f)) diskFiles
                               @ map (\<lambda>f. CopySingle f (dest f)) storeFiles)))"

section \<open>The single copy\<close>

definition statMode :: "disk_node \<Rightarrow> nat" where
  "statMode n = (case n of DiskFile c m \<Rightarrow> m | DiskDir m \<Rightarrow> m)"

text \<open>
  Modelled from the spec: \<open>_write\<close> (\<open>src/actions/write.ts\<close> is not among the sources).
  A written record is stored with \<open>state = modified\<close>.
\<close>

definition writeFile :: "file_record \<Rightarrow> store \<Rightarrow> store" where
  "writeFile f st = add (f\<lparr>state := Some Modified\<rparr>) st"

text \<open>
  Modelled from the spec: \<open>append\<close> (\<open>src/actions/append.ts\<close> is not among the sources).
  The spec has the new content concatenated after the existing content of the
  destination; a destination without contents has nothing before the new content.
\<close>

definition appendFile :: "env \<Rightarrow> store \<Rightarrow> string \<Rightarrow> string \<Rightarrow> store" where
  "appendFile env st to new =
     (let f = get env st to;
          old = (case contents f of None \<Rightarrow> [] | Some a \<Rightarrow> a)
      in writeFile (f\<lparr>contents := Some (old @ new)\<rparr>) st)"

text \<open>
  Modelled from the spec: \<open>_copySingle\<close> (\<open>src/actions/copy.ts\<close> is not among the
  sources), after the per-file contract of the spec's Copy Engine: obtain the content (from
  the store if present, else from disk); with append requested the store must offer the
  existence check, and an existing destination gets the content appended; otherwise a new
  record with \<open>state = modified\<close>, the source's stat and the history of the source followed
  by the destination.
\<close>

definition copySingle :: "env \<Rightarrow> store \<Rightarrow> string \<Rightarrow> string \<Rightarrow> copy_options \<Rightarrow> error + store" where
  "copySingle env st src to options =
     (let f = get env st src
      in case contents f of
           None \<Rightarrow> Inl SourceMissing
         | Some c \<Rightarrow>
             if append options \<and> \<not> hasExistsInMemory st then Inl IncompatibleStore
             else if append options \<and> existsInMemory st to then Inr (appendFile env st to c)
             else Inr (writeFile
                         \<lparr>path = to, contents = Some c, state = None, stat = stat f,
                          history = history f @ [to]\<rparr> st))"

text \<open>
  \<open>_copySingleAsync\<close>. \<open>applyProcessingFileFunc\<close> turns the hook's output into a buffer,
  which is the identity on byte strings. The new \<open>File\<close> records its path after the
  history it is given.
\<close>

definition copySingleAsync ::
  "env \<Rightarrow> store \<Rightarrow> string \<Rightarrow> string \<Rightarrow> copy_options \<Rightarrow> error + store"
where
  "copySingleAsync env st src0 to options =
     (case processFile options of
        None \<Rightarrow> copySingle env st src0 to options
      | Some hook \<Rightarrow>
          let src = resolve env src0;
              new = hook src
          in if append options \<and> \<not> hasExistsInMemory st then Inl IncompatibleStore
             else if append options \<and> existsInMemory st to then Inr (appendFile env st to new)
             else (case disk env src of
                     None \<Rightarrow> Inl ENOENT
                   | Some n \<Rightarrow>
                       Inr (writeFile
                              \<lparr>path = to, contents = Some new, state = None,
                               stat = Some (statMode n), history = [src, to]\<rparr> st)))"

text \<open>The content a single copy brings to its destination.\<close>

definition newContents :: "env \<Rightarrow> store \<Rightarrow> string \<Rightarrow> copy_options \<Rightarrow> string option" where
  "newContents env st src0 options =
     (case processFile options of
        None \<Rightarrow> contents (get env st src0)
      | Some hook \<Rightarrow> Some (hook (resolve env src0)))"

section \<open>Commit\<close>

datatype syscall = Mkdir string | WriteFile string | Chmod string nat | Unlink string

type_synonym disk_fs = "string \<Rightarrow> disk_node option"

text \<open>
  Modelled from the spec: \<open>commitFileAsync\<close> (\<open>src/actions/commit-file-async.ts\<close> is not
  among the sources), after the spec's Commit/Reconciliation Engine. The world is the disk,
  the store and the system calls made so far. An unmodified record is a no-op. A deleted
  record is removed from disk if present. A modified record has its parent directory
  ensured and its bytes written (a file that is already there keeps its mode, a new one
  gets \<open>newMode\<close>); a mode it carries is compared with the mode on disk and applied only if
  different; then the record is stored again as unmodified with its stat refreshed. A
  directory in the place of the file, or a file in the place of the parent directory, is a
  fatal error. \<open>dirname\<close> and \<open>newMode\<close> stand for \<open>path.dirname\<close> and the mode the
  system gives a new file or directory.
\<close>

definition commitFileAsync ::
  "(string \<Rightarrow> string) \<Rightarrow> nat \<Rightarrow> disk_fs \<times> store \<times> syscall list \<Rightarrow> file_record
     \<Rightarrow> error + disk_fs \<times> store \<times> syscall list"
where
  "commitFileAsync dirname newMode w f =
     (case w of (d, st, log) \<Rightarrow>
        (case state f of
           None \<Rightarrow> Inr (d, st, log)
         | Some Deleted \<Rightarrow>
             (case d (path f) of
                Some (DiskFile c m) \<Rightarrow>
                  Inr (d(path f := None), add (f\<lparr>state := None\<rparr>) st, log @ [Unlink (path f)])
              | _ \<Rightarrow> Inr (d, add (f\<lparr>state := None\<rparr>) st, log))
         | Some Modified \<Rightarrow>
             (case d (dirname (path f)) of
                Some (DiskFile c m) \<Rightarrow> Inl ENOTDIR
              | parent \<Rightarrow>
                  let (d1, log1) =
                        (if parent = None
                         then (d(dirname (path f) \<mapsto> DiskDir newMode), log @ [Mkdir (dirname (path f))])
                         else (d, log))
                  in (case d1 (path f) of
                        Some (DiskDir m) \<Rightarrow> Inl EISDIR
                      | present \<Rightarrow>
                          let bytes = (case contents f of None \<Rightarrow> [] | Some c \<Rightarrow> c);
                              mode0 = (case present of None \<Rightarrow> newMode | Some n \<Rightarrow> statMode n);
                              mode1 = (case stat f of None \<Rightarrow> mode0 | Some m \<Rightarrow> m)
                          in Inr (d1(path f \<mapsto> DiskFile bytes mode1),
                                  add (f\<lparr>state := None, stat := Some mode1\<rparr>) st,
                                  log1 @ [WriteFile (path f)]
                                    @ (if mode1 \<noteq> mode0 then [Chmod (path f) mode1] else []))))))"

section \<open>Auxiliary notions\<close>

text \<open>A tombstone: the record is held by the store, deleted and without contents.\<close>

definition tombstoned :: "store \<Rightarrow> string \<Rightarrow> bool" where
  "tombstoned st p =
     (case lookup st p of
        Some f \<Rightarrow> contents f = None \<and> state f = Some Deleted
      | None \<Rightarrow> False)"

text \<open>The scan of \<open>deleteAction\<close> over any list of records.\<close>

definition scan :: "env \<Rightarrow> string list \<Rightarrow> file_record list \<Rightarrow> store \<Rightarrow> store" where
  "scan env patterns fs st =
     fold (\<lambda>f s. if multimatch env [normalize env (path f)] patterns \<noteq> []
                  then deleteFile env (path f) s else s) fs st"

text \<open>The glob expansion and the scan of \<open>deleteAction\<close> for a given pattern list.\<close>

definition globRound :: "env \<Rightarrow> delete_options \<Rightarrow> string list \<Rightarrow> store \<Rightarrow> store" where
  "globRound env options patterns st =
     deleteMatching env patterns
       (fold (deleteFile env) (map (resolve env) (globSync env patterns (globOptions options))) st)"

section \<open>A sample world\<close>

text \<open>
  A small concrete environment on which the results below are evaluated: absolute POSIX
  paths (so \<open>resolve\<close> and \<open>normalize\<close> change nothing), patterns in which \<open>*\<close> stands for
  any run of characters other than \<open>/\<close>, and a disk with a few files.
\<close>

fun glob_match :: "string \<Rightarrow> string \<Rightarrow> bool" where
  "glob_match [] s = (s = [])"
| "glob_match (p # ps) [] = (p = CHR ''*'' \<and> glob_match ps [])"
| "glob_match (p # ps) (c # cs) =
     (if p = CHR ''*''
      then glob_match ps (c # cs) \<or> (c \<noteq> CHR ''/'' \<and> glob_match (p # ps) cs)
      else c = p \<and> glob_match ps cs)"

definition sample_disk :: "(string \<times> disk_node) list" where
  "sample_disk =
     [(''/a'', DiskDir 493),
      (''/a/d.txt'', DiskFile ''disk'' 420),
      (''/a/both.txt'', DiskFile ''old'' 420),
      (''/out'', DiskDir 493),
      (''/plain.txt'', DiskFile ''plain'' 420)]"

definition sample_glob :: "string list \<Rightarrow> string list" where
  "sample_glob patterns =
     filter (\<lambda>p. list_ex (\<lambda>pat. glob_match pat p) patterns)
       [''/a/d.txt'', ''/a/both.txt'', ''/plain.txt'']"

definition sample_env :: env where
  "sample_env =
     \<lparr>resolve = (\<lambda>p. p),
      relative = (\<lambda>base p. drop (length base + 1) p),
      join = (\<lambda>a b. a @ ''/'' @ b),
      normalize = (\<lambda>p. p),
      isDynamicPattern = (\<lambda>p. list_ex (\<lambda>c. c \<in> set ''*?[{'') p),
      globify = toArray,
      globSync = (\<lambda>patterns gopts. sample_glob patterns),
      globby = (\<lambda>patterns gopts. sample_glob patterns),
      multimatch = (\<lambda>xs patterns. filter (\<lambda>x. list_ex (\<lambda>pat. glob_match pat x) patterns) xs),
      getCommonPath = (\<lambda>src. ''/a''),
      resolveFromPaths = (\<lambda>src base. map (\<lambda>p. \<lparr>from_path = p, resolvedFrom = p\<rparr>) (toArray src)),
      resolveGlobOptions = (\<lambda>noGlob dyn gopts. noGlob \<or> (\<not> dyn \<and> \<not> gopts)),
      render = (\<lambda>p c t. p),
      disk = map_of sample_disk\<rparr>"

definition mem_file :: file_record where
  "mem_file =
     \<lparr>path = ''/a/m.txt'', contents = Some ''mem'', state = Some Modified, stat = None,
      history = [''/a/m.txt'']\<rparr>"

definition both_file :: file_record where
  "both_file =
     \<lparr>path = ''/a/both.txt'', contents = Some ''new'', state = Some Modified, stat = Some 420,
      history = [''/a/both.txt'']\<rparr>"

text \<open>\<open>mem_file\<close> once deleted.\<close>

definition deleted_mem_file :: file_record where
  "deleted_mem_file =
     \<lparr>path = ''/a/m.txt'', contents = None, state = Some Deleted, stat = None,
      history = [''/a/m.txt'']\<rparr>"

definition sample_store :: store where
  "sample_store = \<lparr>files = [mem_file, both_file], hasExistsInMemory = True\<rparr>"

text \<open>A store holding a file whose name has glob characters in it.\<close>

definition page_file :: file_record where
  "page_file =
     \<lparr>path = ''/pages/[id].tsx'', contents = Some ''page'', state = Some Modified, stat = None,
      history = [''/pages/[id].tsx'']\<rparr>"

definition pages_store :: store where
  "pages_store = \<lparr>files = [page_file], hasExistsInMemory = True\<rparr>"

definition legacy_store :: store where
  "legacy_store = \<lparr>files = [mem_file], hasExistsInMemory = False\<rparr>"

definition plain_options :: copy_options where
  "plain_options =
     \<lparr>globOptions = None, processFile = None, append = False, processDestinationPath = None,
      ignoreNoMatch = False\<rparr>"

text \<open>A copy with a content hook and append; a record to commit; \<open>path.dirname\<close>.\<close>

definition sample_dirname :: "string \<Rightarrow> string" where
  "sample_dirname p = rev (drop 1 (dropWhile (\<lambda>c. c \<noteq> CHR ''/'') (rev p)))"

definition hook_options :: copy_options where
  "hook_options =
     \<lparr>globOptions = None, processFile = Some (\<lambda>p. ''hook''), append = True,
      processDestinationPath = None, ignoreNoMatch = False\<rparr>"

definition new_file :: file_record where
  "new_file =
     \<lparr>path = ''/out/new.txt'', contents = Some ''bar'', state = Some Modified, stat = Some 384,
      history = [''/out/new.txt'']\<rparr>"

definition no_options :: delete_options where
  "no_options = \<lparr>globOptions = None\<rparr>"

section \<open>Properties of the store and of delete\<close>

lemma add_file_same: "find (\<lambda>g. path g = path f) fs = Some f \<Longrightarrow> add_file f fs = fs"
  by (induction fs) (auto split: if_splits)

lemma find_add_file:
  "find (\<lambda>g. path g = q) (add_file f fs) =
     (if q = path f then Some f else find (\<lambda>g. path g = q) fs)"
  by (induction fs) auto

lemma map_path_add_file:
  "map path (add_file f fs) =
     (if path f \<in> set (map path fs) then map path fs else map path fs @ [path f])"
  by (induction fs) auto

lemma find_path: "find (\<lambda>g. path g = q) fs = Some f \<Longrightarrow> path f = q"
  by (induction fs) (auto split: if_splits)

lemma path_get: "path (get env st p) = p"
  by (auto simp: get_def lookup_def loadFile_def dest: find_path split: option.splits disk_node.splits)

lemma deleteFile_tombstoned: "tombstoned st p \<Longrightarrow> deleteFile env p st = st"
proof -
  assume t: "tombstoned st p"
  then obtain f where f: "lookup st p = Some f" "contents f = None" "state f = Some Deleted"
    by (auto simp: tombstoned_def split: option.splits)
  have "(setDeletedFileState f)\<lparr>contents := None\<rparr> = f"
    using f by (simp add: setDeletedFileState_def)
  moreover have "path f = p" using f(1) by (auto simp: lookup_def dest: find_path)
  ultimately show ?thesis
    using f(1) by (simp add: deleteFile_def get_def add_def lookup_def add_file_same)
qed

lemma lookup_deleteFile:
  "lookup (deleteFile env p st) q =
     (if q = p then Some ((setDeletedFileState (get env st p))\<lparr>contents := None\<rparr>)
      else lookup st q)"
  by (simp add: deleteFile_def Let_def add_def lookup_def find_add_file path_get setDeletedFileState_def)

lemma tombstoned_deleteFile_self: "tombstoned (deleteFile env p st) p"
  by (simp add: tombstoned_def lookup_deleteFile setDeletedFileState_def)

lemma tombstoned_deleteFile_other: "tombstoned st q \<Longrightarrow> tombstoned (deleteFile env p st) q"
  by (simp add: tombstoned_def lookup_deleteFile setDeletedFileState_def)

lemma paths_deleteFile:
  "map path (files (deleteFile env p st)) =
     (if existsInMemory st p then map path (files st) else map path (files st) @ [p])"
  by (auto simp: deleteFile_def Let_def add_def map_path_add_file path_get existsInMemory_def
      lookup_def find_None_iff setDeletedFileState_def)

lemma has_deleteFile: "hasExistsInMemory (deleteFile env p st) = hasExistsInMemory st"
  by (simp add: deleteFile_def Let_def add_def)

lemma fold_deleteFile_id:
  "\<forall>p\<in>set ps. tombstoned st p \<Longrightarrow> fold (deleteFile env) ps st = st"
  by (induction ps) (simp_all add: deleteFile_tombstoned)

lemma tombstoned_fold_other:
  "tombstoned st q \<Longrightarrow> tombstoned (fold (deleteFile env) ps st) q"
  by (induction ps arbitrary: st) (simp_all add: tombstoned_deleteFile_other)

lemma tombstoned_fold_self:
  "p \<in> set ps \<Longrightarrow> tombstoned (fold (deleteFile env) ps st) p"
  by (induction ps arbitrary: st)
     (auto simp: tombstoned_deleteFile_self tombstoned_fold_other)

lemma live_deleteFile:
  "lookup (deleteFile env p st) q = Some g \<Longrightarrow> contents g \<noteq> None \<Longrightarrow> lookup st q = Some g"
  by (auto simp: lookup_deleteFile split: if_splits)

lemma live_fold:
  "lookup (fold (deleteFile env) ps st) q = Some g \<Longrightarrow> contents g \<noteq> None
     \<Longrightarrow> lookup st q = Some g"
  by (induction ps arbitrary: st) (auto dest: live_deleteFile)

lemma deleteMatching_scan: "deleteMatching env patterns st = scan env patterns (files st) st"
  by (simp add: deleteMatching_def scan_def)

lemma scan_Nil: "scan env patterns [] st = st"
  by (simp add: scan_def)

lemma scan_Cons:
  "scan env patterns (f # fs) st =
     scan env patterns fs
       (if multimatch env [normalize env (path f)] patterns \<noteq> []
        then deleteFile env (path f) st else st)"
  by (simp add: scan_def)

lemma scan_id:
  "\<forall>f\<in>set fs. multimatch env [normalize env (path f)] patterns \<noteq> [] \<longrightarrow> tombstoned st (path f)
     \<Longrightarrow> scan env patterns fs st = st"
  by (induction fs) (simp_all add: scan_Nil scan_Cons deleteFile_tombstoned)

lemma tombstoned_scan_other:
  "tombstoned st q \<Longrightarrow> tombstoned (scan env patterns fs st) q"
  by (induction fs arbitrary: st) (simp_all add: scan_Nil scan_Cons tombstoned_deleteFile_other)

lemma tombstoned_scan_self:
  "f \<in> set fs \<Longrightarrow> multimatch env [normalize env (path f)] patterns \<noteq> []
     \<Longrightarrow> tombstoned (scan env patterns fs st) (path f)"
  by (induction fs arbitrary: st)
     (auto simp: scan_Nil scan_Cons tombstoned_deleteFile_self tombstoned_scan_other)

lemma live_scan:
  "lookup (scan env patterns fs st) q = Some g \<Longrightarrow> contents g \<noteq> None
     \<Longrightarrow> lookup st q = Some g"
  by (induction fs arbitrary: st) (auto simp: scan_Nil scan_Cons dest: live_deleteFile split: if_splits)

lemma in_memory_iff: "existsInMemory st p \<longleftrightarrow> p \<in> set (map path (files st))"
  by (auto simp: existsInMemory_def lookup_def find_None_iff)

lemma paths_scan:
  "set (map path fs) \<subseteq> set (map path (files st))
     \<Longrightarrow> map path (files (scan env patterns fs st)) = map path (files st)"
proof (induction fs arbitrary: st)
  case Nil
  then show ?case by (simp add: scan_Nil)
next
  case (Cons f fs)
  have mem: "existsInMemory st (path f)"
    using Cons.prems by (simp add: in_memory_iff)
  show ?case
  proof (cases "multimatch env [normalize env (path f)] patterns \<noteq> []")
    case True
    have same: "map path (files (deleteFile env (path f) st)) = map path (files st)"
      using mem by (simp add: paths_deleteFile)
    have "map path (files (scan env patterns fs (deleteFile env (path f) st)))
            = map path (files (deleteFile env (path f) st))"
      using Cons.prems same by (intro Cons.IH) simp
    then show ?thesis using True same by (simp add: scan_Cons)
  next
    case False
    then show ?thesis using Cons by (simp add: scan_Cons)
  qed
qed

lemma has_fold: "hasExistsInMemory (fold (deleteFile env) ps st) = hasExistsInMemory st"
  by (induction ps arbitrary: st) (simp_all add: has_deleteFile)

lemma has_scan: "hasExistsInMemory (scan env patterns fs st) = hasExistsInMemory st"
  by (induction fs arbitrary: st) (simp_all add: scan_Nil scan_Cons has_deleteFile)

lemma globRound_idem:
  "globRound env options patterns (globRound env options patterns st)
     = globRound env options patterns st"
proof -
  let ?found = "map (resolve env) (globSync env patterns (globOptions options))"
  let ?st1 = "fold (deleteFile env) ?found st"
  let ?st2 = "scan env patterns (files ?st1) ?st1"
  have paths2: "map path (files ?st2) = map path (files ?st1)"
    by (rule paths_scan) simp
  have "\<forall>p\<in>set ?found. tombstoned ?st2 p"
    by (simp add: tombstoned_fold_self tombstoned_scan_other)
  then have a: "fold (deleteFile env) ?found ?st2 = ?st2"
    by (rule fold_deleteFile_id)
  have "\<forall>g\<in>set (files ?st2). multimatch env [normalize env (path g)] patterns \<noteq> []
          \<longrightarrow> tombstoned ?st2 (path g)"
  proof (intro ballI impI)
    fix g assume g: "g \<in> set (files ?st2)"
      and m: "multimatch env [normalize env (path g)] patterns \<noteq> []"
    from g have "path g \<in> set (map path (files ?st1))"
      using paths2 by (metis image_eqI list.set_map)
    then obtain f where f: "f \<in> set (files ?st1)" "path f = path g" by auto
    from tombstoned_scan_self[OF f(1), of env patterns ?st1] m f(2)
    show "tombstoned ?st2 (path g)" by simp
  qed
  then have b: "scan env patterns (files ?st2) ?st2 = ?st2"
    by (rule scan_id)
  show ?thesis
    unfolding globRound_def deleteMatching_scan using a b by simp
qed

lemma toArray_simps [simp]: "toArray (One p) = [p]" "toArray (Many l) = l"
  by (simp_all add: toArray_def)

lemma deleteAction_eq:
  "hasExistsInMemory st \<Longrightarrow>
   deleteAction env st paths options =
     Inr (fold (deleteFile env)
            (fst (classifyPaths env st (toArray paths) ([], [])))
            (globRound env options
               (globify env (Many (snd (classifyPaths env st (toArray paths) ([], [])))))
               st))"
  by (simp add: deleteAction_def globRound_def Let_def split: prod.splits)

lemma classify_one:
  "classifyPaths env st [p] ([], []) =
     (if \<not> existsInMemory st p then ([], [p])
      else if contents (get env st p) \<noteq> None then ([p], [])
      else if \<not> isFileStateDeleted (get env st p) then ([], [p])
      else ([], []))"
  by (simp add: set_add_def)

declare classifyPaths.simps [simp del]

lemma classify_tombstoned:
  "tombstoned st p \<Longrightarrow> classifyPaths env st [p] ([], []) = ([], [])"
  by (auto simp: classify_one tombstoned_def existsInMemory_def get_def isFileStateDeleted_def
      split: option.splits)

lemma globRound_none:
  assumes "globSync env patterns (globOptions options) = []"
    and "\<forall>f\<in>set (files st). multimatch env [normalize env (path f)] patterns = []"
  shows "globRound env options patterns st = st"
  using assms by (simp add: globRound_def deleteMatching_scan scan_id)

lemma has_globRound: "hasExistsInMemory (globRound env options patterns st) = hasExistsInMemory st"
  by (simp add: globRound_def deleteMatching_scan has_scan has_fold)

lemma live_globRound:
  "lookup (globRound env options patterns st) q = Some g \<Longrightarrow> contents g \<noteq> None
     \<Longrightarrow> lookup st q = Some g"
  unfolding globRound_def deleteMatching_scan
  by (blast dest: live_scan live_fold)

lemmas sample_simps =
  sample_env_def sample_store_def pages_store_def mem_file_def both_file_def page_file_def
  no_options_def sample_glob_def sample_disk_def

lemmas delete_simps =
  deleteAction_def classifyPaths.simps set_add_def existsInMemory_def lookup_def get_def
  loadFile_def isFileStateDeleted_def deleteMatching_def deleteFile_def add_def
  setDeletedFileState_def

text \<open>
  Claim C6. On a store that offers \<open>existsInMemory\<close>, and with a glob library for which
  no patterns expand to no files and match no path, deleting a path \<open>p\<close> succeeds, and
  deleting it again from the resulting store succeeds and leaves that store as it is. A
  path that is a tombstone in a store is put in neither \<open>onStoreFiles\<close> nor \<open>notFound\<close>:
  it is skipped.
\<close>

theorem delete_twice_is_delete_once:
  assumes cap: "hasExistsInMemory st"
    and e1: "globSync env (globify env (Many [])) (globOptions options) = []"
    and e2: "\<forall>x. multimatch env [x] (globify env (Many [])) = []"
  shows "\<exists>st1. deleteAction env st (One p) options = Inr st1
           \<and> deleteAction env st1 (One p) options = Inr st1
           \<and> (tombstoned st1 p \<longrightarrow> classifyPaths env st1 [p] ([], []) = ([], []))"
proof -
  let ?pats = "globify env (Many [p])"
  have none: "\<And>s. globRound env options (globify env (Many [])) s = s"
    using e1 e2 by (simp add: globRound_none)
  consider (onStore) "classifyPaths env st [p] ([], []) = ([p], [])"
    | (skip) "classifyPaths env st [p] ([], []) = ([], [])"
    | (notFound) "classifyPaths env st [p] ([], []) = ([], [p])"
    by atomize_elim (simp add: classify_one)
  then have "\<exists>st1. deleteAction env st (One p) options = Inr st1
           \<and> deleteAction env st1 (One p) options = Inr st1"
  proof cases
    case onStore
    let ?st1 = "deleteFile env p st"
    have first: "deleteAction env st (One p) options = Inr ?st1"
      using cap onStore none by (simp add: deleteAction_eq)
    have "classifyPaths env ?st1 [p] ([], []) = ([], [])"
      by (simp add: classify_tombstoned tombstoned_deleteFile_self)
    then have "deleteAction env ?st1 (One p) options = Inr ?st1"
      using cap none by (simp add: deleteAction_eq has_deleteFile)
    with first show ?thesis by blast
  next
    case skip
    then have "deleteAction env st (One p) options = Inr st"
      using cap none by (simp add: deleteAction_eq)
    then show ?thesis by blast
  next
    case notFound
    let ?st1 = "globRound env options ?pats st"
    have cap1: "hasExistsInMemory ?st1" using cap by (simp add: has_globRound)
    have first: "deleteAction env st (One p) options = Inr ?st1"
      using cap notFound by (simp add: deleteAction_eq)
    have not_live: "classifyPaths env ?st1 [p] ([], []) \<noteq> ([p], [])"
    proof
      assume "classifyPaths env ?st1 [p] ([], []) = ([p], [])"
      then have "existsInMemory ?st1 p" "contents (get env ?st1 p) \<noteq> None"
        by (auto simp: classify_one split: if_splits)
      then obtain g where g: "lookup ?st1 p = Some g" "contents g \<noteq> None"
        by (auto simp: existsInMemory_def get_def)
      then have "lookup st p = Some g" by (rule live_globRound)
      then have "classifyPaths env st [p] ([], []) = ([p], [])"
        using g(2) by (simp add: classify_one existsInMemory_def get_def)
      with notFound show False by simp
    qed
    then consider (again) "classifyPaths env ?st1 [p] ([], []) = ([], [p])"
      | (gone) "classifyPaths env ?st1 [p] ([], []) = ([], [])"
      by atomize_elim (simp add: classify_one split: if_splits)
    then have "deleteAction env ?st1 (One p) options = Inr ?st1"
    proof cases
      case again
      then show ?thesis using cap1 by (simp add: deleteAction_eq globRound_idem)
    next
      case gone
      then show ?thesis using cap1 none by (simp add: deleteAction_eq)
    qed
    with first show ?thesis by blast
  qed
  then show ?thesis by (auto simp: classify_tombstoned)
qed

text \<open>
  On the sample world: the first delete of \<open>/a/m.txt\<close> makes its record a tombstone, the
  second returns the same store.
\<close>

theorem delete_twice_is_delete_once_witness:
  "deleteAction sample_env sample_store (One ''/a/m.txt'') no_options
     = Inr \<lparr>files = [deleted_mem_file, both_file], hasExistsInMemory = True\<rparr>
   \<and> deleteAction sample_env \<lparr>files = [deleted_mem_file, both_file], hasExistsInMemory = True\<rparr>
         (One ''/a/m.txt'') no_options
     = Inr \<lparr>files = [deleted_mem_file, both_file], hasExistsInMemory = True\<rparr>"
proof -
  have h1: "hasExistsInMemory sample_store"
    by (simp add: sample_store_def)
  have h2: "globSync sample_env (globify sample_env (Many [])) (globOptions no_options) = []"
    by (simp add: sample_env_def sample_glob_def)
  have h3: "\<forall>x. multimatch sample_env [x] (globify sample_env (Many [])) = []"
    by (simp add: sample_env_def)
  have first: "deleteAction sample_env sample_store (One ''/a/m.txt'') no_options
     = Inr \<lparr>files = [deleted_mem_file, both_file], hasExistsInMemory = True\<rparr>"
    by (simp add: delete_simps sample_simps deleted_mem_file_def)
  from delete_twice_is_delete_once [OF h1 h2 h3, of "''/a/m.txt''"] first
  show ?thesis by auto
qed

text \<open>
  Claim C7. On a store that offers \<open>existsInMemory\<close>, \<open>deleteAction\<close> returns a store for
  every string or array of strings; and when no path given is held with contents, the glob
  expansion finds no file and no record of the store matches the patterns, it returns the
  store unchanged.
\<close>

theorem delete_never_fails_for_no_match:
  assumes "hasExistsInMemory st"
  shows "(\<exists>st'. deleteAction env st paths options = Inr st')
       \<and> (fst (classifyPaths env st (toArray paths) ([], [])) = []
            \<and> globSync env (globify env (Many (snd (classifyPaths env st (toArray paths) ([], [])))))
                 (globOptions options) = []
            \<and> (\<forall>f\<in>set (files st).
                  multimatch env [normalize env (path f)]
                    (globify env (Many (snd (classifyPaths env st (toArray paths) ([], []))))) = [])
          \<longrightarrow> deleteAction env st paths options = Inr st)"
  using assms by (simp add: deleteAction_eq globRound_none)

theorem delete_never_fails_for_no_match_witness:
  "deleteAction sample_env sample_store (Many [''/zz/*.txt'', ''/nothing.txt'']) no_options
     = Inr sample_store"
proof -
  have h1: "hasExistsInMemory sample_store"
    by (simp add: sample_store_def)
  have c: "classifyPaths sample_env sample_store (toArray (Many [''/zz/*.txt'', ''/nothing.txt'']))
             ([], []) = ([], [''/zz/*.txt'', ''/nothing.txt''])"
    by (simp add: classifyPaths.simps set_add_def existsInMemory_def lookup_def sample_simps)
  have h2: "globSync sample_env (globify sample_env (Many [''/zz/*.txt'', ''/nothing.txt'']))
              (globOptions no_options) = []"
    by (simp add: sample_env_def sample_glob_def)
  have h3: "\<forall>f\<in>set (files sample_store).
              multimatch sample_env [normalize sample_env (path f)]
                (globify sample_env (Many [''/zz/*.txt'', ''/nothing.txt''])) = []"
    by (simp add: sample_simps)
  from delete_never_fails_for_no_match [OF h1, of sample_env "Many [''/zz/*.txt'', ''/nothing.txt'']" no_options]
    c h2 h3
  show ?thesis by simp
qed

text \<open>
  Claim C8, as amended. \<open>deleteAction\<close> takes no \<open>ignoreNoMatch\<close> option (its options
  are \<open>globOptions\<close> only) and has no failure for an empty match. On a store that offers
  \<open>existsInMemory\<close> it returns a store for every pattern; and for a pattern that is not
  itself a key of the store, that expands to no file on disk and that matches no record of
  the store, it returns the store unchanged.
\<close>

theorem delete_glob_without_match_is_silent:
  assumes "hasExistsInMemory st"
  shows "(\<exists>st'. deleteAction env st (One p) options = Inr st')
       \<and> (\<not> existsInMemory st p
            \<and> globSync env (globify env (Many [p])) (globOptions options) = []
            \<and> (\<forall>f\<in>set (files st).
                  multimatch env [normalize env (path f)] (globify env (Many [p])) = [])
          \<longrightarrow> deleteAction env st (One p) options = Inr st)"
  using assms by (simp add: deleteAction_eq classify_one globRound_none)

theorem delete_glob_without_match_is_silent_witness:
  "deleteAction sample_env pages_store (One ''/out/*.md'') no_options = Inr pages_store"
proof -
  have h1: "hasExistsInMemory pages_store"
    by (simp add: pages_store_def)
  have h2: "\<not> existsInMemory pages_store ''/out/*.md''"
    by (simp add: existsInMemory_def lookup_def sample_simps)
  have h3: "globSync sample_env (globify sample_env (Many [''/out/*.md''])) (globOptions no_options) = []"
    by (simp add: sample_env_def sample_glob_def)
  have h4: "\<forall>f\<in>set (files pages_store).
              multimatch sample_env [normalize sample_env (path f)]
                (globify sample_env (Many [''/out/*.md''])) = []"
    by (simp add: sample_simps)
  from delete_glob_without_match_is_silent
         [OF h1, where env = sample_env and p = "''/out/*.md''" and options = no_options]
       h2 h3 h4
  show ?thesis by blast
qed

text \<open>
  Deleting a pattern that matches nothing on disk and nothing in the store returns the
  store as it was, without an error; the options of delete have no \<open>ignoreNoMatch\<close>.
\<close>

theorem delete_glob_without_match_counterexample:
  "globSync sample_env (globify sample_env (Many [''/zz/*.txt''])) (globOptions no_options) = []
   \<and> multimatch sample_env (map (\<lambda>f. normalize sample_env (path f)) (files sample_store))
        (globify sample_env (Many [''/zz/*.txt''])) = []
   \<and> deleteAction sample_env sample_store (One ''/zz/*.txt'') no_options = Inr sample_store"
  by (simp add: delete_simps sample_simps)

section \<open>Properties of copyAsync\<close>

lemma virtualMatch_path:
  "path g = path f \<Longrightarrow> virtualMatch env diskFiles patterns g = virtualMatch env diskFiles patterns f"
  by (simp add: virtualMatch_def)

lemma scanStore_iff:
  "f \<in> set (files st) \<Longrightarrow>
   path f \<in> set (scanStore env st diskFiles patterns) \<longleftrightarrow> virtualMatch env diskFiles patterns f"
  by (auto simp: scanStore_def dest: virtualMatch_path)

lemma scanStore_distinct:
  "distinct (map path (files st)) \<Longrightarrow> distinct (scanStore env st diskFiles patterns)"
  by (simp add: scanStore_def distinct_map_filter)

lemma scanStore_disjoint:
  "\<forall>f\<in>set (files st). path f \<in> set diskFiles \<longrightarrow> normalize env (path f) \<in> set diskFiles
     \<Longrightarrow> set diskFiles \<inter> set (scanStore env st diskFiles patterns) = {}"
  by (auto simp: scanStore_def virtualMatch_def Let_def)

lemma resolveFiles_glob:
  "snd (splitSources st rs) \<noteq> [] \<Longrightarrow>
   resolveFiles env st gopts rs =
     (globby env (copyPatterns env (snd (splitSources st rs))) gopts,
      fst (splitSources st rs)
        @ scanStore env st (globby env (copyPatterns env (snd (splitSources st rs))) gopts)
            (copyPatterns env (snd (splitSources st rs))))"
  by (cases "splitSources st rs") (simp add: resolveFiles_def Let_def)

text \<open>
  What the scan of the store does. When some source is not held in the store, the result
  of \<open>resolveFiles\<close> is the disk expansion together with the sources held in the store
  followed by the records found by the scan; a record of the store is found by the scan if
  and only if its normalized path is not in the disk expansion, is not a dynamic pattern
  and matches the patterns. With unique keys in the store, a duplicate-free disk expansion,
  and a \<open>normalize\<close> under which a store path listed in the disk expansion stays listed,
  the disk expansion followed by the scan's records has no duplicate: the scan keeps a path
  out of the list twice. A duplicate can then only come from the sources held in the store
  and named in the request.
\<close>

lemma virtual_matches:
  fixes env st gopts rs
  defines "patterns \<equiv> copyPatterns env (snd (splitSources st rs))"
  defines "diskFiles \<equiv> globby env patterns gopts"
  defines "virtual \<equiv> scanStore env st diskFiles patterns"
  assumes glob: "snd (splitSources st rs) \<noteq> []"
    and keys: "distinct (map path (files st))"
    and dd: "distinct diskFiles"
    and norm: "\<forall>f\<in>set (files st). path f \<in> set diskFiles \<longrightarrow> normalize env (path f) \<in> set diskFiles"
  shows "resolveFiles env st gopts rs = (diskFiles, fst (splitSources st rs) @ virtual)
       \<and> (\<forall>f\<in>set (files st).
             path f \<in> set virtual \<longleftrightarrow>
               normalize env (path f) \<notin> set diskFiles
               \<and> \<not> isDynamicPattern env (normalize env (path f))
               \<and> multimatch env [normalize env (path f)] patterns \<noteq> [])
       \<and> distinct (diskFiles @ virtual)
       \<and> (distinct (diskFiles @ fst (splitSources st rs) @ virtual) \<longleftrightarrow>
            distinct (fst (splitSources st rs))
            \<and> set (fst (splitSources st rs)) \<inter> (set diskFiles \<union> set virtual) = {})"
proof -
  have a: "resolveFiles env st gopts rs = (diskFiles, fst (splitSources st rs) @ virtual)"
    using glob unfolding virtual_def diskFiles_def patterns_def by (rule resolveFiles_glob)
  have b: "\<forall>f\<in>set (files st).
             path f \<in> set virtual \<longleftrightarrow>
               normalize env (path f) \<notin> set diskFiles
               \<and> \<not> isDynamicPattern env (normalize env (path f))
               \<and> multimatch env [normalize env (path f)] patterns \<noteq> []"
    unfolding virtual_def by (simp add: scanStore_iff virtualMatch_def Let_def)
  have c1: "distinct virtual"
    unfolding virtual_def using keys by (rule scanStore_distinct)
  have c2: "set diskFiles \<inter> set virtual = {}"
    unfolding virtual_def using norm by (rule scanStore_disjoint)
  have c: "distinct (diskFiles @ virtual)"
    using dd c1 c2 by simp
  have d: "distinct (diskFiles @ fst (splitSources st rs) @ virtual) \<longleftrightarrow>
            distinct (fst (splitSources st rs))
            \<and> set (fst (splitSources st rs)) \<inter> (set diskFiles \<union> set virtual) = {}"
    using dd c1 c2 by auto
  show ?thesis using a b c d by blast
qed

text \<open>
  On the sample world, for the single pattern \<open>/a/*.txt\<close>: the file that is both in the
  store and on disk comes from the disk expansion only, the file held only in the store is
  found by the scan.
\<close>

lemma virtual_matches_sample:
  "resolveFiles sample_env sample_store None (sources sample_env (One ''/a/*.txt''))
     = ([''/a/d.txt'', ''/a/both.txt''], [''/a/m.txt''])
   \<and> distinct ([''/a/d.txt'', ''/a/both.txt''] @ [''/a/m.txt''])"
proof -
  let ?rs = "sources sample_env (One ''/a/*.txt'')"
  have split: "splitSources sample_store ?rs
                 = ([], [\<lparr>from_path = ''/a/*.txt'', resolvedFrom = ''/a/*.txt''\<rparr>])"
    by (simp add: sources_def sample_env_def toArray_def splitSources_def
        existsInMemoryOpt_def existsInMemory_def lookup_def sample_store_def mem_file_def
        both_file_def)
  have pats: "copyPatterns sample_env (snd (splitSources sample_store ?rs)) = [''/a/*.txt'']"
    by (simp add: split) (simp add: copyPatterns_def sample_env_def toArray_def)
  have disk: "globby sample_env [''/a/*.txt''] None = [''/a/d.txt'', ''/a/both.txt'']"
    by (simp add: sample_env_def sample_glob_def)
  have virtual: "scanStore sample_env sample_store [''/a/d.txt'', ''/a/both.txt''] [''/a/*.txt'']
                   = [''/a/m.txt'']"
    by (simp add: scanStore_def virtualMatch_def sample_env_def sample_store_def mem_file_def
        both_file_def)
  have h1: "snd (splitSources sample_store ?rs) \<noteq> []" by (simp add: split)
  have h2: "distinct (map path (files sample_store))"
    by (simp add: sample_store_def mem_file_def both_file_def)
  have h3: "distinct (globby sample_env (copyPatterns sample_env (snd (splitSources sample_store ?rs))) None)"
    by (simp add: pats disk)
  have h4: "\<forall>f\<in>set (files sample_store).
              path f \<in> set (globby sample_env (copyPatterns sample_env (snd (splitSources sample_store ?rs))) None)
              \<longrightarrow> normalize sample_env (path f)
                    \<in> set (globby sample_env (copyPatterns sample_env (snd (splitSources sample_store ?rs))) None)"
    by (simp add: sample_env_def)
  from virtual_matches [OF h1 h2 h3 h4] show ?thesis
    unfolding pats disk virtual by (simp add: split)
qed

lemma copyAsync_slow_pair:
  assumes "fastPath env st src (resolve env to) context tplSettings = None"
    and "resolveFiles env st (globOptions options) (sources env src) = (diskFiles, storeFiles)"
  shows "copyAsync env st src to options context tplSettings =
     (if \<not> (ignoreNoMatch options \<or> diskFiles \<noteq> [] \<or> storeFiles \<noteq> [])
      then Inl NoSourceMatched
      else case (if treatToAsDir env st src (globOptions options)
                 then checkDestination env st (resolve env to) else None) of
             Some e \<Rightarrow> Inl e
           | None \<Rightarrow>
               Inr (map (\<lambda>f. CopySingleAsync f
                              (renderFilepath env
                                 (generateDestination env (treatToAsDir env st src (globOptions options))
                                    (getCommonPath env src) (resolve env to) options f)
                                 context tplSettings))
                        diskFiles
                    @ map (\<lambda>f. CopySingle f
                              (renderFilepath env
                                 (generateDestination env (treatToAsDir env st src (globOptions options))
                                    (getCommonPath env src) (resolve env to) options f)
                                 context tplSettings))
                        storeFiles))"
  using assms by (simp add: copyAsync_def Let_def)

lemmas copyAsync_slow = copyAsync_slow_pair [OF _ prod.collapse [symmetric]]

lemma checkDestination_not_no_source: "checkDestination env st to \<noteq> Some NoSourceMatched"
  by (simp add: checkDestination_def split: option.splits disk_node.splits)

lemmas copy_simps =
  copyAsync_def fastPath_def existsInMemoryOpt_def existsInMemory_def lookup_def exists_file_def
  get_def loadFile_def getOneFile_def resolveFiles_def sources_def splitSources_def
  copyPatterns_def scanStore_def virtualMatch_def treatToAsDir_def hasDynamicPattern_def
  isArray_def checkDestination_def generateDestination_def renderFilepath_def toArray_def
  plain_options_def

text \<open>
  Claim C1. The claim asks that no path appear twice in the combined list of disk and
  store files, also when a matching file is both in the store and on disk. The scan keeps
  to it, the loop over the sources does not: the request \<open>[/a/both.txt, /a/*.txt]\<close>
  names a file that is held in the store and lies on disk next to a pattern that matches
  it; the named source goes onto \<open>storeFiles\<close> unchecked, the disk expansion gives the
  file again, the combined list has it twice, and \<open>copyAsync\<close> starts two copies of it
  to the same destination.
\<close>

theorem stored_source_is_copied_twice:
  "resolveFiles sample_env sample_store None
       (sources sample_env (Many [''/a/both.txt'', ''/a/*.txt'']))
     = ([''/a/d.txt'', ''/a/both.txt''], [''/a/both.txt'', ''/a/m.txt''])
   \<and> \<not> distinct
         (fst (resolveFiles sample_env sample_store None
                 (sources sample_env (Many [''/a/both.txt'', ''/a/*.txt''])))
          @ snd (resolveFiles sample_env sample_store None
                   (sources sample_env (Many [''/a/both.txt'', ''/a/*.txt'']))))
   \<and> copyAsync sample_env sample_store (Many [''/a/both.txt'', ''/a/*.txt'']) ''/out''
         plain_options None None
     = Inr [CopySingleAsync ''/a/d.txt'' ''/out/d.txt'',
            CopySingleAsync ''/a/both.txt'' ''/out/both.txt'',
            CopySingle ''/a/both.txt'' ''/out/both.txt'',
            CopySingle ''/a/m.txt'' ''/out/m.txt'']"
proof -
  have fl: "resolveFiles sample_env sample_store None
       (sources sample_env (Many [''/a/both.txt'', ''/a/*.txt'']))
     = ([''/a/d.txt'', ''/a/both.txt''], [''/a/both.txt'', ''/a/m.txt''])"
    by (simp add: resolveFiles_def sources_def sample_env_def toArray_def splitSources_def
      existsInMemoryOpt_def existsInMemory_def lookup_def sample_store_def mem_file_def both_file_def
      copyPatterns_def sample_glob_def scanStore_def virtualMatch_def)
  have run: "copyAsync sample_env sample_store (Many [''/a/both.txt'', ''/a/*.txt'']) ''/out''
         plain_options None None
     = Inr [CopySingleAsync ''/a/d.txt'' ''/out/d.txt'',
            CopySingleAsync ''/a/both.txt'' ''/out/both.txt'',
            CopySingle ''/a/both.txt'' ''/out/both.txt'',
            CopySingle ''/a/m.txt'' ''/out/m.txt'']"
    by (simp add: copy_simps sample_simps)
  from fl run show ?thesis by simp
qed

text \<open>
  Read off the lists: the file is the first of \<open>storeFiles\<close> and is in \<open>diskFiles\<close>.
\<close>

theorem stored_source_is_copied_twice_witness:
  "hd (snd (resolveFiles sample_env sample_store None
              (sources sample_env (Many [''/a/both.txt'', ''/a/*.txt''])))) = ''/a/both.txt''
   \<and> ''/a/both.txt''
        \<in> set (fst (resolveFiles sample_env sample_store None
                      (sources sample_env (Many [''/a/both.txt'', ''/a/*.txt'']))))"
  using stored_source_is_copied_twice by simp

text \<open>
  Claim C2. When the request does not take the shortcut for a string source that is an
  existing file, \<open>copyAsync\<close> fails with the no-source-matched error, starting no copy, if
  and only if \<open>ignoreNoMatch\<close> is not set and both \<open>diskFiles\<close> and \<open>storeFiles\<close> are
  empty.
\<close>

theorem no_source_matched_iff:
  assumes "fastPath env st src (resolve env to) context tplSettings = None"
  shows "copyAsync env st src to options context tplSettings = Inl NoSourceMatched
         \<longleftrightarrow> \<not> ignoreNoMatch options
             \<and> fst (resolveFiles env st (globOptions options) (sources env src)) = []
             \<and> snd (resolveFiles env st (globOptions options) (sources env src)) = []"
  using checkDestination_not_no_source [of env st "resolve env to"]
  by (auto simp: copyAsync_slow [OF assms] split: option.splits)

theorem no_source_matched_iff_witness:
  "copyAsync sample_env sample_store (One ''/zz/*.txt'') ''/out'' plain_options None None
     = Inl NoSourceMatched
   \<and> copyAsync sample_env sample_store (One ''/zz/*.txt'') ''/out''
         (plain_options\<lparr>ignoreNoMatch := True\<rparr>) None None
     \<noteq> Inl NoSourceMatched"
proof -
  have fast: "fastPath sample_env sample_store (One ''/zz/*.txt'') (resolve sample_env ''/out'') None None
                = None"
    by (simp add: copy_simps sample_simps)
  have none: "resolveFiles sample_env sample_store None (sources sample_env (One ''/zz/*.txt''))
                = ([], [])"
    by (simp add: copy_simps sample_simps)
  have g: "globOptions plain_options = None" "\<not> ignoreNoMatch plain_options"
    by (simp_all add: plain_options_def)
  show ?thesis
    using no_source_matched_iff [OF fast, where options = plain_options]
      no_source_matched_iff [OF fast, where options = "plain_options\<lparr>ignoreNoMatch := True\<rparr>"]
    by (simp add: none g)
qed

lemma splitSources_snd:
  "snd (splitSources st rs) \<noteq> [] \<longleftrightarrow> (\<exists>r\<in>set rs. \<not> existsInMemoryOpt st (resolvedFrom r))"
  by (auto simp: splitSources_def filter_empty_conv)

text \<open>
  Claim C3, as amended. For a request that does not take the shortcut for an existing
  single file and that passes the sanity check: \<open>to\<close> is treated as a directory exactly
  when the source is an array, or \<open>resolveGlobOptions\<close> answers \<open>preferFiles = false\<close> for
  the request (it is told whether a source is a dynamic pattern), or some source is not
  held in the store; so a dynamic pattern makes \<open>to\<close> a directory whenever
  \<open>resolveGlobOptions\<close> does not prefer files for dynamic patterns. Then the operation fails with the destination assertion when \<open>to\<close>
  exists and is a file on disk, and otherwise, when \<open>to\<close> does not exist or is a
  directory on disk, every copy goes to \<open>to\<close> joined with the path of its source relative
  to the common base. When \<open>to\<close> is not treated as a directory, every copy goes to \<open>to\<close>
  itself.
\<close>

theorem destination_is_directory:
  fixes env st src dest options ctx tpl
  defines "to' \<equiv> resolve env dest"
  defines "rs \<equiv> sources env src"
  defines "fl \<equiv> resolveFiles env st (globOptions options) rs"
  defines "asDir \<equiv> treatToAsDir env st src (globOptions options)"
  defines "result \<equiv> copyAsync env st src dest options ctx tpl"
  defines "fileDest \<equiv> renderFilepath env to' ctx tpl"
  defines "dirDest \<equiv> (\<lambda>f. renderFilepath env
             ((case processDestinationPath options of None \<Rightarrow> (\<lambda>p. p) | Some g \<Rightarrow> g)
                (join env to' (relative env (getCommonPath env src) f)))
             ctx tpl)"
  assumes slow: "fastPath env st src to' ctx tpl = None"
    and some: "ignoreNoMatch options \<or> fst fl \<noteq> [] \<or> snd fl \<noteq> []"
  shows "(asDir \<longleftrightarrow>
            isArray src
            \<or> \<not> resolveGlobOptions env False (hasDynamicPattern env rs) (globOptions options \<noteq> None)
            \<or> (\<exists>r\<in>set rs. \<not> existsInMemoryOpt st (resolvedFrom r)))
       \<and> (hasDynamicPattern env rs
            \<and> \<not> resolveGlobOptions env False True (globOptions options \<noteq> None)
            \<longrightarrow> asDir)
       \<and> (asDir \<and> exists_file env st to' \<and> (\<exists>c m. disk env to' = Some (DiskFile c m))
            \<longrightarrow> result = Inl DestinationNotDirectory)
       \<and> (asDir \<and> (\<not> exists_file env st to' \<or> (\<exists>m. disk env to' = Some (DiskDir m)))
            \<longrightarrow> result = Inr (map (\<lambda>f. CopySingleAsync f (dirDest f)) (fst fl)
                              @ map (\<lambda>f. CopySingle f (dirDest f)) (snd fl)))
       \<and> (\<not> asDir
            \<longrightarrow> result = Inr (map (\<lambda>f. CopySingleAsync f fileDest) (fst fl)
                              @ map (\<lambda>f. CopySingle f fileDest) (snd fl)))"
proof -
  have a: "asDir \<longleftrightarrow>
            isArray src
            \<or> \<not> resolveGlobOptions env False (hasDynamicPattern env rs) (globOptions options \<noteq> None)
            \<or> (\<exists>r\<in>set rs. \<not> existsInMemoryOpt st (resolvedFrom r))"
    unfolding asDir_def rs_def treatToAsDir_def Let_def splitSources_snd by simp
  have r: "result =
     (case (if asDir then checkDestination env st to' else None) of
             Some e \<Rightarrow> Inl e
           | None \<Rightarrow>
               Inr (map (\<lambda>f. CopySingleAsync f
                              (renderFilepath env
                                 (generateDestination env asDir (getCommonPath env src) to' options f)
                                 ctx tpl)) (fst fl)
                    @ map (\<lambda>f. CopySingle f
                              (renderFilepath env
                                 (generateDestination env asDir (getCommonPath env src) to' options f)
                                 ctx tpl)) (snd fl)))"
    using some slow unfolding result_def fl_def rs_def asDir_def to'_def
    by (simp add: copyAsync_slow)
  have b: "asDir \<and> exists_file env st to' \<and> (\<exists>c m. disk env to' = Some (DiskFile c m))
            \<longrightarrow> result = Inl DestinationNotDirectory"
    by (auto simp: r checkDestination_def)
  have c: "asDir \<and> (\<not> exists_file env st to' \<or> (\<exists>m. disk env to' = Some (DiskDir m)))
            \<longrightarrow> result = Inr (map (\<lambda>f. CopySingleAsync f (dirDest f)) (fst fl)
                              @ map (\<lambda>f. CopySingle f (dirDest f)) (snd fl))"
    by (auto simp: r checkDestination_def generateDestination_def dirDest_def)
  have d: "\<not> asDir
            \<longrightarrow> result = Inr (map (\<lambda>f. CopySingleAsync f fileDest) (fst fl)
                              @ map (\<lambda>f. CopySingle f fileDest) (snd fl))"
    by (auto simp: r generateDestination_def fileDest_def)
  have a': "hasDynamicPattern env rs
            \<and> \<not> resolveGlobOptions env False True (globOptions options \<noteq> None)
            \<longrightarrow> asDir"
    using a by auto
  show ?thesis using a a' b c d by blast
qed

theorem destination_is_directory_witness:
  "copyAsync sample_env sample_store (One ''/a/*.txt'') ''/plain.txt'' plain_options None None
     = Inl DestinationNotDirectory
   \<and> copyAsync sample_env sample_store (One ''/a/*.txt'') ''/out'' plain_options None None
     = Inr [CopySingleAsync ''/a/d.txt'' ''/out/d.txt'',
            CopySingleAsync ''/a/both.txt'' ''/out/both.txt'',
            CopySingle ''/a/m.txt'' ''/out/m.txt'']"
proof -
  have fast: "fastPath sample_env sample_store (One ''/a/*.txt'') (resolve sample_env d) None None = None"
    for d
    by (simp add: copy_simps sample_simps)
  have fl: "resolveFiles sample_env sample_store (globOptions plain_options)
              (sources sample_env (One ''/a/*.txt''))
            = ([''/a/d.txt'', ''/a/both.txt''], [''/a/m.txt''])"
    by (simp add: copy_simps sample_simps)
  have some: "ignoreNoMatch plain_options
      \<or> fst (resolveFiles sample_env sample_store (globOptions plain_options)
                (sources sample_env (One ''/a/*.txt''))) \<noteq> []
      \<or> snd (resolveFiles sample_env sample_store (globOptions plain_options)
                (sources sample_env (One ''/a/*.txt''))) \<noteq> []"
    by (simp add: fl)
  have asDir: "treatToAsDir sample_env sample_store (One ''/a/*.txt'') (globOptions plain_options)"
    by (simp add: copy_simps sample_simps)
  have plain: "exists_file sample_env sample_store (resolve sample_env ''/plain.txt'')"
    "disk sample_env (resolve sample_env ''/plain.txt'') = Some (DiskFile ''plain'' 420)"
    by (simp_all add: copy_simps sample_simps)
  have out: "disk sample_env (resolve sample_env ''/out'') = Some (DiskDir 493)"
    by (simp add: sample_simps)
  have opts: "processDestinationPath plain_options = None"
    by (simp add: plain_options_def)
  have paths: "resolve sample_env ''/out'' = ''/out''" "getCommonPath sample_env (One ''/a/*.txt'') = ''/a''"
    "join sample_env ''/out'' (relative sample_env ''/a'' ''/a/d.txt'') = ''/out/d.txt''"
    "join sample_env ''/out'' (relative sample_env ''/a'' ''/a/both.txt'') = ''/out/both.txt''"
    "join sample_env ''/out'' (relative sample_env ''/a'' ''/a/m.txt'') = ''/out/m.txt''"
    by (simp_all add: sample_env_def)
  from destination_is_directory
         [where env = sample_env and st = sample_store and src = "One ''/a/*.txt''"
            and dest = "''/plain.txt''" and options = plain_options and ctx = None and tpl = None,
          OF fast some]
       asDir plain
  have a: "copyAsync sample_env sample_store (One ''/a/*.txt'') ''/plain.txt'' plain_options None None
     = Inl DestinationNotDirectory"
    by blast
  from destination_is_directory
         [where env = sample_env and st = sample_store and src = "One ''/a/*.txt''"
            and dest = "''/out''" and options = plain_options and ctx = None and tpl = None,
          OF fast some]
       asDir out
  have b: "copyAsync sample_env sample_store (One ''/a/*.txt'') ''/out'' plain_options None None
     = Inr [CopySingleAsync ''/a/d.txt'' ''/out/d.txt'',
            CopySingleAsync ''/a/both.txt'' ''/out/both.txt'',
            CopySingle ''/a/m.txt'' ''/out/m.txt'']"
    by (simp add: fl opts paths renderFilepath_def)
  from a b show ?thesis by simp
qed

text \<open>
  A string source that the glob library calls dynamic, but that names a file held in the
  store, takes the shortcut: it is copied to \<open>to\<close> as a file path, although \<open>to\<close> exists
  and is not a directory.
\<close>

theorem existing_file_shortcut_counterexample:
  "isDynamicPattern sample_env (normalize sample_env ''/pages/[id].tsx'')
   \<and> exists_file sample_env pages_store (resolve sample_env ''/plain.txt'')
   \<and> disk sample_env (resolve sample_env ''/plain.txt'') = Some (DiskFile ''plain'' 420)
   \<and> copyAsync sample_env pages_store (One ''/pages/[id].tsx'') ''/plain.txt'' plain_options None None
       = Inr [CopySingle ''/pages/[id].tsx'' ''/plain.txt'']"
  by (simp add: copy_simps sample_simps)

section \<open>Properties of the single copy\<close>

lemma lookup_add: "lookup (add g st) q = (if q = path g then Some g else lookup st q)"
  by (simp add: lookup_def add_def find_add_file)

lemma lookup_path: "lookup st q = Some f \<Longrightarrow> path f = q"
  by (auto simp: lookup_def dest: find_path)

lemma appendFile_contents:
  assumes "lookup st to = Some f" "contents f = Some A"
  shows "\<exists>g. lookup (appendFile env st to B) to = Some g \<and> contents g = Some (A @ B)"
  using assms lookup_path [OF assms(1)]
  by (simp add: appendFile_def get_def writeFile_def lookup_add)

text \<open>
  Claim C4. With append requested, on a store that offers \<open>existsInMemory\<close> and holds the
  destination with content \<open>A\<close>, a single copy that brings the content \<open>B\<close> succeeds and
  leaves the destination holding \<open>A\<close> followed by \<open>B\<close>.
\<close>

theorem append_concatenates:
  assumes "append options" "hasExistsInMemory st"
    and "lookup st to = Some f" "contents f = Some A"
    and "newContents env st src options = Some B"
  shows "\<exists>st'. copySingleAsync env st src to options = Inr st'
           \<and> (\<exists>g. lookup st' to = Some g \<and> contents g = Some (A @ B))"
proof (cases "processFile options")
  case None
  then have "contents (get env st src) = Some B"
    using assms(5) by (simp add: newContents_def)
  then have "copySingleAsync env st src to options = Inr (appendFile env st to B)"
    using None assms(1-3) by (simp add: copySingleAsync_def copySingle_def existsInMemory_def)
  then show ?thesis using appendFile_contents [OF assms(3,4)] by simp
next
  case (Some hook)
  then have "hook (resolve env src) = B"
    using assms(5) by (simp add: newContents_def)
  then have "copySingleAsync env st src to options = Inr (appendFile env st to B)"
    using Some assms(1-3) by (simp add: copySingleAsync_def existsInMemory_def)
  then show ?thesis using appendFile_contents [OF assms(3,4)] by simp
qed

theorem append_concatenates_witness:
  "\<exists>st'. copySingleAsync sample_env sample_store ''/a/d.txt'' ''/a/m.txt'' hook_options = Inr st'
         \<and> (\<exists>g. lookup st' ''/a/m.txt'' = Some g \<and> contents g = Some ''memhook'')"
proof -
  have h1: "append hook_options" by (simp add: hook_options_def)
  have h2: "hasExistsInMemory sample_store" by (simp add: sample_store_def)
  have h3: "lookup sample_store ''/a/m.txt'' = Some mem_file"
    by (simp add: lookup_def sample_store_def mem_file_def)
  have h4: "contents mem_file = Some ''mem''" by (simp add: mem_file_def)
  have h5: "newContents sample_env sample_store ''/a/d.txt'' hook_options = Some ''hook''"
    by (simp add: newContents_def hook_options_def)
  from append_concatenates [OF h1 h2 h3 h4 h5] show ?thesis by simp
qed

text \<open>
  Claim C5. With append requested on a store that does not offer \<open>existsInMemory\<close>, a
  single copy never returns a store: it fails, and with the incompatible-store error
  whenever the content to copy is there (always so with a content hook).
\<close>

theorem append_needs_existence_check:
  assumes "append options" "\<not> hasExistsInMemory st"
  shows "(\<exists>e. copySingleAsync env st src to options = Inl e)
       \<and> (newContents env st src options \<noteq> None
            \<longrightarrow> copySingleAsync env st src to options = Inl IncompatibleStore)"
  using assms
  by (auto simp: copySingleAsync_def copySingle_def newContents_def Let_def split: option.splits)

theorem append_needs_existence_check_witness:
  "copySingleAsync sample_env legacy_store ''/a/d.txt'' ''/a/m.txt'' hook_options
     = Inl IncompatibleStore"
proof -
  have h1: "append hook_options" by (simp add: hook_options_def)
  have h2: "\<not> hasExistsInMemory legacy_store" by (simp add: legacy_store_def)
  have h3: "newContents sample_env legacy_store ''/a/d.txt'' hook_options \<noteq> None"
    by (simp add: newContents_def hook_options_def)
  from append_needs_existence_check [OF h1 h2, of sample_env "''/a/d.txt''" "''/a/m.txt''"] h3
  show ?thesis by simp
qed

section \<open>Properties of commit\<close>

lemma commit_unmodified:
  "state f = None \<Longrightarrow> commitFileAsync dirname newMode (d, st, log) f = Inr (d, st, log)"
  by (simp add: commitFileAsync_def)

lemma commit_first_writes:
  assumes "state f = Some Modified"
    and "commitFileAsync dirname newMode (d, st, log) f = Inr (d1, st1, log1)"
  shows "\<exists>w. log1 = log @ w \<and> WriteFile (path f) \<in> set w"
  using assms
  by (auto simp: commitFileAsync_def Let_def split: option.splits disk_node.splits if_splits)

lemma commit_stored_unmodified:
  assumes "state f = Some Modified"
    and "commitFileAsync dirname newMode (d, st, log) f = Inr (d1, st1, log1)"
  shows "\<exists>g. lookup st1 (path f) = Some g \<and> state g = None \<and> path g = path f"
  using assms
  by (auto simp: commitFileAsync_def Let_def lookup_add split: option.splits disk_node.splits if_splits)

lemma commit_second_no_chmod:
  assumes "state f = Some Modified"
    and "commitFileAsync dirname newMode (d, st, log) f = Inr (d1, st1, log1)"
  shows "\<exists>d2 st2. commitFileAsync dirname newMode (d1, st1, log1) f
                     = Inr (d2, st2, log1 @ [WriteFile (path f)])"
  using assms
  by (auto simp: commitFileAsync_def Let_def statMode_def
      split: option.splits disk_node.splits if_splits)

text \<open>
  Claim C9. Committing an unmodified record leaves the disk, the store and the list of
  system calls as they are. When committing a modified record succeeds, it makes a write
  of the file; committing the same record again right after succeeds and makes that write
  and no change of mode; and the record the store then holds for the path is unmodified,
  so that committing it changes nothing.
\<close>

theorem commit_unmodified_and_repeated:
  "(state f = None \<longrightarrow> commitFileAsync dirname newMode (d, st, log) f = Inr (d, st, log))
   \<and> (state f = Some Modified
        \<and> commitFileAsync dirname newMode (d, st, log) f = Inr (d1, st1, log1)
      \<longrightarrow> (\<exists>w. log1 = log @ w \<and> WriteFile (path f) \<in> set w)
          \<and> (\<exists>d2 st2. commitFileAsync dirname newMode (d1, st1, log1) f
                         = Inr (d2, st2, log1 @ [WriteFile (path f)]))
          \<and> (\<exists>g. lookup st1 (path f) = Some g \<and> state g = None
                   \<and> commitFileAsync dirname newMode (d1, st1, log1) g = Inr (d1, st1, log1)))"
proof (intro conjI impI)
  assume "state f = None"
  then show "commitFileAsync dirname newMode (d, st, log) f = Inr (d, st, log)"
    by (rule commit_unmodified)
next
  assume a: "state f = Some Modified
        \<and> commitFileAsync dirname newMode (d, st, log) f = Inr (d1, st1, log1)"
  then show "\<exists>w. log1 = log @ w \<and> WriteFile (path f) \<in> set w"
    by (blast intro: commit_first_writes)
  from a show "\<exists>d2 st2. commitFileAsync dirname newMode (d1, st1, log1) f
                         = Inr (d2, st2, log1 @ [WriteFile (path f)])"
    by (blast intro: commit_second_no_chmod)
  from a obtain g where "lookup st1 (path f) = Some g" "state g = None"
    using commit_stored_unmodified by blast
  then show "\<exists>g. lookup st1 (path f) = Some g \<and> state g = None
                   \<and> commitFileAsync dirname newMode (d1, st1, log1) g = Inr (d1, st1, log1)"
    by (auto simp: commit_unmodified)
qed

text \<open>
  On the sample disk, for a new file with mode \<open>0o600\<close> where new files get \<open>0o644\<close>: the
  first commit writes the file and changes its mode, the second only writes it.
\<close>

theorem commit_unmodified_and_repeated_witness:
  "commitFileAsync sample_dirname 420 (map_of sample_disk, sample_store, [])
       (new_file\<lparr>state := None\<rparr>)
     = Inr (map_of sample_disk, sample_store, [])
   \<and> commitFileAsync sample_dirname 420 (map_of sample_disk, sample_store, []) new_file
     = Inr ((map_of sample_disk)(''/out/new.txt'' \<mapsto> DiskFile ''bar'' 384),
            add (new_file\<lparr>state := None\<rparr>) sample_store,
            [WriteFile ''/out/new.txt'', Chmod ''/out/new.txt'' 384])
   \<and> (\<exists>d2 st2.
         commitFileAsync sample_dirname 420
           ((map_of sample_disk)(''/out/new.txt'' \<mapsto> DiskFile ''bar'' 384),
            add (new_file\<lparr>state := None\<rparr>) sample_store,
            [WriteFile ''/out/new.txt'', Chmod ''/out/new.txt'' 384]) new_file
         = Inr (d2, st2,
                [WriteFile ''/out/new.txt'', Chmod ''/out/new.txt'' 384, WriteFile ''/out/new.txt'']))"
proof -
  have s0: "state (new_file\<lparr>state := None\<rparr>) = None" by simp
  have s1: "state new_file = Some Modified" "path new_file = ''/out/new.txt''"
    by (simp_all add: new_file_def)
  have first: "commitFileAsync sample_dirname 420 (map_of sample_disk, sample_store, []) new_file
     = Inr ((map_of sample_disk)(''/out/new.txt'' \<mapsto> DiskFile ''bar'' 384),
            add (new_file\<lparr>state := None\<rparr>) sample_store,
            [WriteFile ''/out/new.txt'', Chmod ''/out/new.txt'' 384])"
    by (simp add: commitFileAsync_def new_file_def sample_dirname_def sample_disk_def Let_def)
  from commit_unmodified_and_repeated
         [of "new_file\<lparr>state := None\<rparr>" sample_dirname 420 "map_of sample_disk" sample_store "[]"]
       s0
  have a: "commitFileAsync sample_dirname 420 (map_of sample_disk, sample_store, [])
       (new_file\<lparr>state := None\<rparr>)
     = Inr (map_of sample_disk, sample_store, [])"
    by blast
  from commit_unmodified_and_repeated
         [of new_file sample_dirname 420 "map_of sample_disk" sample_store "[]"
             "(map_of sample_disk)(''/out/new.txt'' \<mapsto> DiskFile ''bar'' 384)"
             "add (new_file\<lparr>state := None\<rparr>) sample_store"
             "[WriteFile ''/out/new.txt'', Chmod ''/out/new.txt'' 384]"]
       s1 first
  have b: "\<exists>d2 st2.
         commitFileAsync sample_dirname 420
           ((map_of sample_disk)(''/out/new.txt'' \<mapsto> DiskFile ''bar'' 384),
            add (new_file\<lparr>state := None\<rparr>) sample_store,
            [WriteFile ''/out/new.txt'', Chmod ''/out/new.txt'' 384]) new_file
         = Inr (d2, st2,
                [WriteFile ''/out/new.txt'', Chmod ''/out/new.txt'' 384, WriteFile ''/out/new.txt''])"
    by simp
  from a first b show ?thesis by blast
qed

end
